theory Spec2Isabelle
  imports Main "HOL-Library.Multiset" "HOL-Library.Sublist" "HOL-Library.AList"
begin

section \<open>Python string primitives used by the parser\<close>

text \<open>
  A Python \<open>str\<close> is modelled as a \<open>string\<close> whose characters stand for the code points
  below 256 (Latin-1).  On that range \<open>str.lower()\<close> maps \<open>A..Z\<close> and the accented
  capitals \<open>0xC0..0xDE\<close> (without the multiplication sign \<open>0xD7\<close>) to the code point 32
  above, and leaves every other character alone.
\<close>

definition lower_char :: "char \<Rightarrow> char" where
  "lower_char c =
     (let n = (of_char c :: nat)
      in if (65 \<le> n \<and> n \<le> 90) \<or> (192 \<le> n \<and> n \<le> 222 \<and> n \<noteq> 215)
         then char_of (n + 32) else c)"

definition str_lower :: "string \<Rightarrow> string" where
  "str_lower s = map lower_char s"

text \<open>
  \<open>k in t\<close> on strings: \<open>k\<close> occurs in \<open>t\<close> as a contiguous run of characters.  The
  function scans the start positions of \<open>t\<close> from the left.
\<close>

fun str_contains :: "string \<Rightarrow> string \<Rightarrow> bool" where
  "str_contains [] k = (k = [])"
| "str_contains (c # cs) k = (prefix k (c # cs) \<or> str_contains cs k)"

text \<open>
  \<open>str.strip()\<close> removes leading and trailing whitespace.  Below 256 the whitespace
  code points of a Python \<open>str\<close> are 9..13, 28..32, 133 and 160.
\<close>

definition is_space :: "char \<Rightarrow> bool" where
  "is_space c =
     (let n = (of_char c :: nat)
      in (9 \<le> n \<and> n \<le> 13) \<or> (28 \<le> n \<and> n \<le> 32) \<or> n = 133 \<or> n = 160)"

definition str_strip :: "string \<Rightarrow> string" where
  "str_strip s = rev (dropWhile is_space (rev (dropWhile is_space s)))"

text \<open>\<open>sep.join(xs)\<close>: the elements of \<open>xs\<close> with \<open>sep\<close> between neighbours.\<close>

fun str_join :: "string \<Rightarrow> string list \<Rightarrow> string" where
  "str_join sep [] = []"
| "str_join sep [x] = x"
| "str_join sep (x # y # ys) = x @ sep @ str_join sep (y # ys)"

text \<open>\<open>str(n)\<close> for a non-negative integer: its decimal digits.\<close>

definition digit_char :: "nat \<Rightarrow> char" where
  "digit_char d = char_of (48 + d)"

fun str_of_nat :: "nat \<Rightarrow> string" where
  "str_of_nat n = (if n < 10 then [digit_char n] else str_of_nat (n div 10) @ [digit_char (n mod 10)])"

declare str_of_nat.simps [simp del]


section \<open>Keyword scorer (\<open>utils/parser.py\<close>, \<open>ResumeParser.search_keywords\<close>)\<close>

record match_result =
  matched_keywords :: "string list"
  score :: int

text \<open>
  The loop \<open>for keyword in keywords: if keyword.lower() in text_lower: matched.append(keyword)\<close>,
  with the list \<open>matched\<close> as accumulator.
\<close>

fun keyword_loop :: "string \<Rightarrow> string list \<Rightarrow> string list \<Rightarrow> string list" where
  "keyword_loop text_lower [] matched = matched"
| "keyword_loop text_lower (keyword # rest) matched =
     (if str_contains text_lower (str_lower keyword)
      then keyword_loop text_lower rest (matched @ [keyword])
      else keyword_loop text_lower rest matched)"

text \<open>
  The argument \<open>text\<close> is \<open>None\<close> or a string; \<open>not text\<close> holds for \<open>None\<close> and for the
  empty string.
\<close>

definition search_keywords :: "string option \<Rightarrow> string list \<Rightarrow> match_result" where
  "search_keywords text keywords =
     (case text of
        None \<Rightarrow> \<lparr>matched_keywords = [], score = 0\<rparr>
      | Some t \<Rightarrow>
          if t = [] then \<lparr>matched_keywords = [], score = 0\<rparr>
          else
            let text_lower = str_lower t;
                matched = keyword_loop text_lower keywords []
            in \<lparr>matched_keywords = matched, score = int (length matched)\<rparr>)"


section \<open>Paths (\<open>os.path\<close>, POSIX flavour)\<close>

text \<open>\<open>p.rfind(c)\<close>: the index of the last occurrence of \<open>c\<close> in \<open>p\<close>, or \<open>-1\<close>.\<close>

definition str_rfind :: "string \<Rightarrow> char \<Rightarrow> int" where
  "str_rfind p c =
     (if c \<in> set p then int (length p) - 1 - int (length (takeWhile (\<lambda>x. x \<noteq> c) (rev p)))
      else - 1)"

text \<open>
  \<open>os.path.splitext\<close> takes the last dot after the last slash as the start of the
  extension, unless only dots lie between that slash and the dot.  Its loop over the leading
  dots of the file name:
  \<^verbatim>\<open>
  while filenameIndex < dotIndex:
      if p[filenameIndex:filenameIndex+1] != extsep:
          return p[:dotIndex], p[dotIndex:]
      filenameIndex += 1
  \<close>
\<close>

function splitext_loop :: "string \<Rightarrow> int \<Rightarrow> int \<Rightarrow> (string \<times> string) option" where
  "splitext_loop p filenameIndex dotIndex =
     (if filenameIndex < dotIndex
      then (if take 1 (drop (nat filenameIndex) p) \<noteq> ''.''
            then Some (take (nat dotIndex) p, drop (nat dotIndex) p)
            else splitext_loop p (filenameIndex + 1) dotIndex)
      else None)"
  by pat_completeness auto
termination
  by (relation "measure (\<lambda>(p, i, d). nat (d - i))") auto

declare splitext_loop.simps [simp del]

definition os_path_splitext :: "string \<Rightarrow> string \<times> string" where
  "os_path_splitext p =
     (let sepIndex = str_rfind p CHR ''/'';
          dotIndex = str_rfind p CHR ''.''
      in if dotIndex > sepIndex
         then (case splitext_loop p (sepIndex + 1) dotIndex of
                 Some r \<Rightarrow> r
               | None \<Rightarrow> (p, []))
         else (p, []))"

text \<open>\<open>os.path.join(a, b)\<close> for two components.\<close>

definition os_path_join :: "string \<Rightarrow> string \<Rightarrow> string" where
  "os_path_join a b =
     (if prefix ''/'' b then b
      else if a = [] \<or> suffix ''/'' a then a @ b
      else a @ ''/'' @ b)"


section \<open>The file system and the parsing libraries\<close>

text \<open>
  The file system is an association list from paths to nodes, in the order in which the
  operating system enumerates them; a node is a regular file with its bytes, or a
  directory.  The model does not track that the parent directory of a path exists.  Every
  call into the operating system, and every \<open>print\<close>, is appended to a trace, so that
  ``no file is listed or read'' is a statement about the trace.
\<close>

datatype node = File string | Dir

datatype io_event =
    EvExists string
  | EvListdir string
  | EvOpenRead string
  | EvOpenWrite string
  | EvRemove string
  | EvPrint string

record world =
  nodes :: "(string \<times> node) list"
  trace :: "io_event list"

text \<open>An exception is represented by its message (\<open>str(e)\<close>).\<close>

type_synonym exn = string

definition emit :: "io_event \<Rightarrow> world \<Rightarrow> world" where
  "emit e w = w\<lparr>trace := trace w @ [e]\<rparr>"

definition os_path_exists :: "string \<Rightarrow> world \<Rightarrow> bool \<times> world" where
  "os_path_exists p w = (map_of (nodes w) p \<noteq> None, emit (EvExists p) w)"

text \<open>The name of the entry of directory \<open>d\<close> that path \<open>p\<close> denotes, if it is one.\<close>

definition entry_name :: "string \<Rightarrow> string \<Rightarrow> string option" where
  "entry_name d p =
     (if prefix (d @ ''/'') p
      then (let n = drop (length d + 1) p
            in if n \<noteq> [] \<and> CHR ''/'' \<notin> set n then Some n else None)
      else None)"

text \<open>
  \<open>os.listdir(d)\<close>.  The application creates its directory when it is loaded and never
  writes a regular file in its place, so the listing of something that is not a directory
  is not modelled.
\<close>

definition os_listdir :: "string \<Rightarrow> world \<Rightarrow> string list \<times> world" where
  "os_listdir d w = (List.map_filter (entry_name d) (map fst (nodes w)), emit (EvListdir d) w)"

text \<open>\<open>open(p, 'rb')\<close> followed by reading the whole file.\<close>

definition open_read :: "string \<Rightarrow> world \<Rightarrow> (exn + string) \<times> world" where
  "open_read p w =
     (case map_of (nodes w) p of
        None \<Rightarrow> Inl (''[Errno 2] No such file or directory: '' @ p)
      | Some Dir \<Rightarrow> Inl (''[Errno 21] Is a directory: '' @ p)
      | Some (File bytes) \<Rightarrow> Inr bytes,
      emit (EvOpenRead p) w)"

text \<open>
  \<open>open(p, 'wb')\<close> followed by \<open>shutil.copyfileobj\<close>: the file is created, or replaced
  where it stands.
\<close>

definition open_write :: "string \<Rightarrow> string \<Rightarrow> world \<Rightarrow> (exn + unit) \<times> world" where
  "open_write p bytes w =
     (case map_of (nodes w) p of
        Some Dir \<Rightarrow> (Inl (''[Errno 21] Is a directory: '' @ p), emit (EvOpenWrite p) w)
      | _ \<Rightarrow> (Inr (), emit (EvOpenWrite p) (w\<lparr>nodes := AList.update p (File bytes) (nodes w)\<rparr>)))"

definition os_remove :: "string \<Rightarrow> world \<Rightarrow> (exn + unit) \<times> world" where
  "os_remove p w =
     (case map_of (nodes w) p of
        None \<Rightarrow> (Inl (''[Errno 2] No such file or directory: '' @ p), emit (EvRemove p) w)
      | Some Dir \<Rightarrow> (Inl (''[Errno 21] Is a directory: '' @ p), emit (EvRemove p) w)
      | Some (File bytes) \<Rightarrow>
          (Inr (), emit (EvRemove p) (w\<lparr>nodes := AList.delete p (nodes w)\<rparr>)))"

text \<open>
  The two parsing libraries are parameters.  \<open>pdf_reader\<close> stands for \<open>PyPDF2.PdfReader\<close>:
  from the bytes of a file it raises, or gives the pages, and \<open>extract_text()\<close> of each page
  raises or gives a text.  \<open>docx_document\<close> stands for \<open>docx.Document\<close>: it raises, or
  gives the texts of the paragraphs.
\<close>

record libraries =
  pdf_reader :: "string \<Rightarrow> exn + (exn + string) list"
  docx_document :: "string \<Rightarrow> exn + string list"


section \<open>Document text extractor (\<open>utils/parser.py\<close>)\<close>

text \<open>The loop \<open>for page in pdf_reader.pages: text += page.extract_text() + "\n"\<close>.\<close>

fun pdf_page_loop :: "(exn + string) list \<Rightarrow> string \<Rightarrow> exn + string" where
  "pdf_page_loop [] text = Inr text"
| "pdf_page_loop (page # pages) text =
     (case page of
        Inl e \<Rightarrow> Inl e
      | Inr t \<Rightarrow> pdf_page_loop pages (text @ t @ [CHR 0x0A]))"

text \<open>The body of the \<open>try\<close> of \<open>extract_text_from_pdf\<close>.\<close>

definition pdf_try :: "libraries \<Rightarrow> string \<Rightarrow> world \<Rightarrow> (exn + string) \<times> world" where
  "pdf_try L file_path w =
     (case open_read file_path w of
        (Inl e, w1) \<Rightarrow> (Inl e, w1)
      | (Inr bytes, w1) \<Rightarrow>
          (case pdf_reader L bytes of
             Inl e \<Rightarrow> (Inl e, w1)
           | Inr pages \<Rightarrow>
               (case pdf_page_loop pages [] of
                  Inl e \<Rightarrow> (Inl e, w1)
                | Inr text \<Rightarrow> (Inr (str_strip text), w1))))"

definition extract_text_from_pdf :: "libraries \<Rightarrow> string \<Rightarrow> world \<Rightarrow> string option \<times> world" where
  "extract_text_from_pdf L file_path w =
     (case pdf_try L file_path w of
        (Inr text, w1) \<Rightarrow> (Some text, w1)
      | (Inl e, w1) \<Rightarrow>
          (None, emit (EvPrint (''Error extracting text from PDF '' @ file_path @ '': '' @ e)) w1))"

text \<open>The body of the \<open>try\<close> of \<open>extract_text_from_docx\<close>.\<close>

definition docx_try :: "libraries \<Rightarrow> string \<Rightarrow> world \<Rightarrow> (exn + string) \<times> world" where
  "docx_try L file_path w =
     (case open_read file_path w of
        (Inl e, w1) \<Rightarrow> (Inl e, w1)
      | (Inr bytes, w1) \<Rightarrow>
          (case docx_document L bytes of
             Inl e \<Rightarrow> (Inl e, w1)
           | Inr paragraphs \<Rightarrow> (Inr (str_strip (str_join [CHR 0x0A] paragraphs)), w1)))"

definition extract_text_from_docx :: "libraries \<Rightarrow> string \<Rightarrow> world \<Rightarrow> string option \<times> world" where
  "extract_text_from_docx L file_path w =
     (case docx_try L file_path w of
        (Inr text, w1) \<Rightarrow> (Some text, w1)
      | (Inl e, w1) \<Rightarrow>
          (None, emit (EvPrint (''Error extracting text from DOCX '' @ file_path @ '': '' @ e)) w1))"

definition extract_text :: "libraries \<Rightarrow> string \<Rightarrow> world \<Rightarrow> string option \<times> world" where
  "extract_text L file_path w =
     (let extension = str_lower (snd (os_path_splitext file_path))
      in if extension = ''.pdf'' then extract_text_from_pdf L file_path w
         else if extension = ''.docx'' then extract_text_from_docx L file_path w
         else (None, emit (EvPrint (''Unsupported file format: '' @ extension)) w))"


section \<open>The application (\<open>main.py\<close>)\<close>

definition UPLOAD_DIR :: string where
  "UPLOAD_DIR = ''uploads''"

definition ALLOWED_EXTENSIONS :: "string set" where
  "ALLOWED_EXTENSIONS = {''.pdf'', ''.docx''}"

definition is_allowed_file :: "string \<Rightarrow> bool" where
  "is_allowed_file name = (str_lower (snd (os_path_splitext name)) \<in> ALLOWED_EXTENSIONS)"

text \<open>
  \<open>get_uploaded_resumes\<close>: the entries of the upload directory whose extension is allowed,
  in listing order; the empty list when the directory does not exist.
\<close>

definition get_uploaded_resumes :: "world \<Rightarrow> string list \<times> world" where
  "get_uploaded_resumes w =
     (case os_path_exists UPLOAD_DIR w of
        (False, w1) \<Rightarrow> ([], w1)
      | (True, w1) \<Rightarrow>
          (case os_listdir UPLOAD_DIR w1 of
             (names, w2) \<Rightarrow> (filter is_allowed_file names, w2)))"

text \<open>\<open>HTTPException(status_code, detail)\<close>.\<close>

datatype http_error = HTTPException int string

text \<open>An uploaded file: its name and its bytes.\<close>

datatype upload_file = UploadFile (upload_name: string) (upload_bytes: string)

record response =
  message :: string

record upload_response = response +
  files :: "string list"
  count :: int

record resume_match = match_result +
  filename :: string

text \<open>\<open>FilterRequest\<close>, with its one field \<open>keywords\<close>.\<close>

record filter_request =
  request_keywords :: "string list"

text \<open>
  The first answer of \<open>filter_resumes\<close> (no resumes in the store) has no
  \<open>keywords_searched\<close> entry; the second has one.
\<close>

record filter_response = response +
  matched_resumes :: "resume_match list"
  total_resumes :: int
  keywords_searched :: "string list option"

text \<open>
  The loop of \<open>upload_resumes\<close>: each file is checked and then saved before the next file
  is looked at; \<open>uploaded\<close> is the list \<open>uploaded_files\<close>.
\<close>

fun upload_loop ::
  "upload_file list \<Rightarrow> string list \<Rightarrow> world \<Rightarrow> (http_error + string list) \<times> world" where
  "upload_loop [] uploaded w = (Inr uploaded, w)"
| "upload_loop (f # rest) uploaded w =
     (if \<not> is_allowed_file (upload_name f)
      then (Inl (HTTPException 400
                  (''File '' @ upload_name f @ '' has invalid extension. Only PDF and DOCX allowed.'')),
            w)
      else
        (case open_write (os_path_join UPLOAD_DIR (upload_name f)) (upload_bytes f) w of
           (Inl e, w1) \<Rightarrow>
             (Inl (HTTPException 500 (''Failed to save file '' @ upload_name f @ '': '' @ e)), w1)
         | (Inr u, w1) \<Rightarrow> upload_loop rest (uploaded @ [upload_name f]) w1))"

definition upload_resumes ::
  "upload_file list \<Rightarrow> world \<Rightarrow> (http_error + upload_response) \<times> world" where
  "upload_resumes fs w =
     (if fs = [] then (Inl (HTTPException 400 ''No files provided''), w)
      else
        (case upload_loop fs [] w of
           (Inl err, w1) \<Rightarrow> (Inl err, w1)
         | (Inr uploaded_files, w1) \<Rightarrow>
             (Inr \<lparr>message = ''Resumes uploaded successfully'',
                   files = uploaded_files,
                   count = int (length uploaded_files)\<rparr>, w1)))"

text \<open>
  \<open>xs.sort(key=lambda x: x["score"], reverse=True)\<close>.  Python's sort is stable; with
  \<open>reverse=True\<close> it reverses the list, sorts it in ascending order and reverses the
  result, which keeps the elements of equal key in their first order.
\<close>

definition sort_by_score_reverse :: "resume_match list \<Rightarrow> resume_match list" where
  "sort_by_score_reverse xs = rev (sort_key score (rev xs))"

text \<open>The loop of \<open>filter_resumes\<close> over the listed names; \<open>if text\<close> holds for a non-empty string.\<close>

fun filter_loop ::
  "libraries \<Rightarrow> string list \<Rightarrow> string list \<Rightarrow> resume_match list \<Rightarrow> world
     \<Rightarrow> resume_match list \<times> world" where
  "filter_loop L kws [] matched w = (matched, w)"
| "filter_loop L kws (name # rest) matched w =
     (case extract_text L (os_path_join UPLOAD_DIR name) w of
        (text, w1) \<Rightarrow>
          if text \<noteq> None \<and> text \<noteq> Some []
          then (let result = search_keywords text kws
                in if score result > 0
                   then filter_loop L kws rest
                          (matched @ [\<lparr>matched_keywords = matched_keywords result,
                                       score = score result,
                                       filename = name\<rparr>]) w1
                   else filter_loop L kws rest matched w1)
          else filter_loop L kws rest matched w1)"

definition filter_resumes ::
  "libraries \<Rightarrow> filter_request \<Rightarrow> world \<Rightarrow> (http_error + filter_response) \<times> world" where
  "filter_resumes L request w =
     (if request_keywords request = [] then (Inl (HTTPException 400 ''No keywords provided''), w)
      else
        (case get_uploaded_resumes w of
           (resumes, w1) \<Rightarrow>
             if resumes = []
             then (Inr \<lparr>message = ''No resumes found'',
                        matched_resumes = [],
                        total_resumes = 0,
                        keywords_searched = None\<rparr>, w1)
             else
               (case filter_loop L (request_keywords request) resumes [] w1 of
                  (matched, w2) \<Rightarrow>
                    (let sorted_matches = sort_by_score_reverse matched
                     in (Inr \<lparr>message = ''Found '' @ str_of_nat (length sorted_matches)
                                          @ '' matching resumes'',
                              matched_resumes = sorted_matches,
                              total_resumes = int (length resumes),
                              keywords_searched = Some (request_keywords request)\<rparr>, w2)))))"

text \<open>
  The match result of one stored document for a keyword list: the scorer applied to the text
  that the extractor gives for the document's path; and the entry that the filter reports
  for the document.  The properties of \<open>filter_resumes\<close> are stated with them.
\<close>

definition document_result :: "libraries \<Rightarrow> string list \<Rightarrow> world \<Rightarrow> string \<Rightarrow> match_result" where
  "document_result L kws w name =
     search_keywords (fst (extract_text L (os_path_join UPLOAD_DIR name) w)) kws"

definition match_entry :: "libraries \<Rightarrow> string list \<Rightarrow> world \<Rightarrow> string \<Rightarrow> resume_match" where
  "match_entry L kws w name =
     \<lparr>matched_keywords = matched_keywords (document_result L kws w name),
      score = score (document_result L kws w name),
      filename = name\<rparr>"

definition delete_resume :: "string \<Rightarrow> world \<Rightarrow> (http_error + response) \<times> world" where
  "delete_resume name w =
     (let file_path = os_path_join UPLOAD_DIR name
      in case os_path_exists file_path w of
           (False, w1) \<Rightarrow> (Inl (HTTPException 404 ''Resume not found''), w1)
         | (True, w1) \<Rightarrow>
             (case os_remove file_path w1 of
                (Inr u, w2) \<Rightarrow> (Inr \<lparr>message = ''Resume '' @ name @ '' deleted successfully''\<rparr>, w2)
              | (Inl e, w2) \<Rightarrow>
                  (Inl (HTTPException 500 (''Failed to delete resume: '' @ e)), w2)))"


section \<open>Facts about the string primitives\<close>

lemma str_contains_iff_sublist: "str_contains t k \<longleftrightarrow> sublist k t"
proof (induction t)
  case Nil
  show ?case by simp
next
  case (Cons c cs)
  show ?case using Cons.IH by (simp add: sublist_Cons_right)
qed

lemma str_contains_empty: "str_contains t []"
  by (simp add: str_contains_iff_sublist)

lemma keyword_loop_filter:
  "keyword_loop low ks acc = acc @ filter (\<lambda>k. str_contains low (str_lower k)) ks"
  by (induction ks arbitrary: acc) simp_all

lemma search_keywords_nonempty:
  "t \<noteq> [] \<Longrightarrow>
     search_keywords (Some t) ks =
       \<lparr>matched_keywords = filter (\<lambda>k. sublist (str_lower k) (str_lower t)) ks,
        score = int (length (filter (\<lambda>k. sublist (str_lower k) (str_lower t)) ks))\<rparr>"
  by (simp add: search_keywords_def Let_def keyword_loop_filter str_contains_iff_sublist)


section \<open>Properties of the keyword scorer\<close>

text \<open>
  C2 (as amended).  For every keyword list \<open>K\<close> and every non-empty text \<open>T\<close>,
  \<open>search_keywords(T, K)\<close> returns as \<open>matched_keywords\<close> exactly the elements of \<open>K\<close>
  whose lowercase form is a substring of the lowercase of \<open>T\<close>, in the order of \<open>K\<close>, with
  their casing and their duplicates kept, and as \<open>score\<close> the number of those elements,
  which is the length of \<open>matched_keywords\<close>.
\<close>

theorem search_keywords_score_and_matches:
  assumes "T \<noteq> []"
  shows "matched_keywords (search_keywords (Some T) K) =
           filter (\<lambda>k. sublist (str_lower k) (str_lower T)) K
         \<and> score (search_keywords (Some T) K) =
           int (length (filter (\<lambda>k. sublist (str_lower k) (str_lower T)) K))
         \<and> score (search_keywords (Some T) K) =
           int (length (matched_keywords (search_keywords (Some T) K)))"
  using assms by (simp add: search_keywords_nonempty)

theorem search_keywords_score_and_matches_witness:
  "''Knows Python and SQL'' \<noteq> []
   \<and> matched_keywords (search_keywords (Some ''Knows Python and SQL'') [''python'', ''java'', ''SQL'', ''python''])
       = [''python'', ''SQL'', ''python'']
   \<and> score (search_keywords (Some ''Knows Python and SQL'') [''python'', ''java'', ''SQL'', ''python'']) = 3"
proof -
  have sel:
    "filter (\<lambda>k. sublist (str_lower k) (str_lower ''Knows Python and SQL''))
       [''python'', ''java'', ''SQL'', ''python''] = [''python'', ''SQL'', ''python'']"
    by code_simp
  show ?thesis
    using search_keywords_score_and_matches
            [of "''Knows Python and SQL''" "[''python'', ''java'', ''SQL'', ''python'']",
             unfolded sel]
    by simp
qed

text \<open>
  The claim as first stated ranges over every text, the empty one included.  At the empty
  text and the keyword list holding only the empty keyword, the lowercase keyword is a
  substring of the lowercase text, so one keyword of the list qualifies, while the guard
  \<open>if not text\<close> returns score 0 and no matched keyword.
\<close>

theorem search_keywords_empty_text_counterexample:
  "sublist (str_lower []) (str_lower [])
   \<and> score (search_keywords (Some []) [[]]) = 0
   \<and> matched_keywords (search_keywords (Some []) [[]]) = []"
  by (simp add: search_keywords_def str_lower_def)

text \<open>
  C5.  For every keyword list \<open>K\<close>, when the text is absent (\<open>None\<close>) or the empty string,
  \<open>search_keywords\<close> returns the defined result with \<open>matched_keywords = []\<close> and
  \<open>score = 0\<close>.
\<close>

theorem search_keywords_absent_or_empty:
  "search_keywords None K = \<lparr>matched_keywords = [], score = 0\<rparr>
   \<and> search_keywords (Some []) K = \<lparr>matched_keywords = [], score = 0\<rparr>"
  by (simp add: search_keywords_def)

text \<open>
  C9.  The empty keyword always matches a non-empty text: for every non-empty text \<open>T\<close>
  and keyword list \<open>K\<close>, every occurrence of the empty string in \<open>K\<close> is in
  \<open>matched_keywords\<close> (as many times as in \<open>K\<close>) and counts toward the score, which is the
  length of \<open>matched_keywords\<close>; for the empty or absent text the score is 0 all the same.
\<close>

theorem empty_keyword_always_matches:
  "(T \<noteq> [] \<longrightarrow>
      filter (\<lambda>k. k = []) (matched_keywords (search_keywords (Some T) K)) = filter (\<lambda>k. k = []) K
      \<and> count_list (matched_keywords (search_keywords (Some T) K)) [] = count_list K []
      \<and> score (search_keywords (Some T) K) = int (length (matched_keywords (search_keywords (Some T) K)))
      \<and> int (count_list K []) \<le> score (search_keywords (Some T) K))
   \<and> score (search_keywords (Some []) K) = 0
   \<and> score (search_keywords None K) = 0"
proof -
  let ?P = "\<lambda>k. sublist (str_lower k) (str_lower T)"
  have keep: "filter (\<lambda>k. k = []) (filter ?P K) = filter (\<lambda>k. k = []) K"
    by (induction K) (simp_all add: str_lower_def)
  have cnt: "count_list xs [] = length (filter (\<lambda>k. k = []) xs)" for xs :: "string list"
    by (induction xs) simp_all
  have le: "length (filter (\<lambda>k. k = []) K) \<le> length (filter ?P K)"
    using keep by (metis length_filter_le)
  have absent: "score (search_keywords (Some []) K) = 0" "score (search_keywords None K) = 0"
    by (simp_all add: search_keywords_def)
  show ?thesis
    using keep le absent by (simp add: search_keywords_nonempty cnt)
qed

theorem empty_keyword_always_matches_witness:
  "''cv'' \<noteq> []
   \<and> matched_keywords (search_keywords (Some ''cv'') [[], ''java'', []]) = [[], []]
   \<and> score (search_keywords (Some ''cv'') [[], ''java'', []]) = 2
   \<and> score (search_keywords (Some []) [[], ''java'', []]) = 0"
proof -
  have val: "matched_keywords (search_keywords (Some ''cv'') [[], ''java'', []]) = [[], []]"
    by code_simp
  show ?thesis
    using empty_keyword_always_matches [of "''cv''" "[[], ''java'', []]"]
    by (simp add: val)
qed

section \<open>Facts about the file system and the extractor\<close>

lemma nodes_emit: "nodes (emit e w) = nodes w"
  by (simp add: emit_def)

lemma trace_emit: "trace (emit e w) = trace w @ [e]"
  by (simp add: emit_def)

lemma is_space_newline: "is_space (CHR 0x0A)"
  by (simp add: is_space_def)

text \<open>Stripping forgets one trailing whitespace character.\<close>

lemma str_strip_snoc:
  assumes c: "is_space c"
  shows "str_strip (s @ [c]) = str_strip s"
proof (cases "\<forall>x\<in>set s. is_space x")
  case True
  with c have "\<forall>x\<in>set (s @ [c]). is_space x" by simp
  then have "dropWhile is_space (s @ [c]) = []" by (simp only: dropWhile_eq_Nil_conv)
  moreover from True have "dropWhile is_space s = []" by (simp only: dropWhile_eq_Nil_conv)
  ultimately have "dropWhile is_space (s @ [c]) = []" "dropWhile is_space s = []" by blast+
  then show ?thesis by (simp only: str_strip_def)
next
  case False
  then obtain x where "x \<in> set s" "\<not> is_space x" by blast
  then have "dropWhile is_space (s @ [c]) = dropWhile is_space s @ [c]"
    by (rule dropWhile_append1)
  with c show ?thesis by (simp add: str_strip_def)
qed

text \<open>The page loop on pages that all give a text: every text followed by a newline.\<close>

lemma pdf_page_loop_texts:
  "pdf_page_loop (map Inr texts) acc = Inr (acc @ concat (map (\<lambda>t. t @ [CHR 0x0A]) texts))"
  by (induction texts arbitrary: acc) simp_all

lemma concat_terminated_join:
  "texts \<noteq> [] \<Longrightarrow> concat (map (\<lambda>t. t @ [c]) texts) = str_join [c] texts @ [c]"
  by (induction texts rule: str_join.induct [where ?a0.0 = "[c]"]) simp_all

lemma strip_terminated_pages:
  "str_strip (concat (map (\<lambda>t. t @ [CHR 0x0A]) texts)) = str_strip (str_join [CHR 0x0A] texts)"
  by (cases "texts = []") (simp_all add: concat_terminated_join str_strip_snoc is_space_newline)

lemma delete_resume_absent:
  "map_of (nodes w) (os_path_join UPLOAD_DIR name) = None \<Longrightarrow>
     delete_resume name w =
       (Inl (HTTPException 404 ''Resume not found''), emit (EvExists (os_path_join UPLOAD_DIR name)) w)"
  by (simp add: delete_resume_def os_path_exists_def Let_def)

lemma delete_resume_file:
  "map_of (nodes w) (os_path_join UPLOAD_DIR name) = Some (File b) \<Longrightarrow>
     delete_resume name w =
       (Inr \<lparr>message = ''Resume '' @ name @ '' deleted successfully''\<rparr>,
        emit (EvRemove (os_path_join UPLOAD_DIR name))
          ((emit (EvExists (os_path_join UPLOAD_DIR name)) w)
             \<lparr>nodes := AList.delete (os_path_join UPLOAD_DIR name) (nodes w)\<rparr>))"
  by (simp add: delete_resume_def os_path_exists_def os_remove_def Let_def nodes_emit)

lemma delete_resume_dir:
  "map_of (nodes w) (os_path_join UPLOAD_DIR name) = Some Dir \<Longrightarrow>
     fst (delete_resume name w) =
       Inl (HTTPException 500 (''Failed to delete resume: '' @ ''[Errno 21] Is a directory: '' @ os_path_join UPLOAD_DIR name))
     \<and> nodes (snd (delete_resume name w)) = nodes w"
  by (simp add: delete_resume_def os_path_exists_def os_remove_def Let_def nodes_emit)

lemma disallowed_not_listed: "\<not> is_allowed_file name \<Longrightarrow> name \<notin> set (fst (get_uploaded_resumes w))"
  by (auto simp: get_uploaded_resumes_def os_path_exists_def os_listdir_def split: prod.splits bool.splits)

lemma upload_loop_prefix:
  assumes "\<forall>f\<in>set pre. is_allowed_file (upload_name f)
             \<and> map_of (nodes w) (os_path_join UPLOAD_DIR (upload_name f)) \<noteq> Some Dir"
      and "\<not> is_allowed_file (upload_name bad)"
  shows "upload_loop (pre @ bad # post) acc w =
           (Inl (HTTPException 400
                  (''File '' @ upload_name bad @ '' has invalid extension. Only PDF and DOCX allowed.'')),
            w\<lparr>nodes := foldl (\<lambda>ns f. AList.update (os_path_join UPLOAD_DIR (upload_name f))
                                       (File (upload_bytes f)) ns) (nodes w) pre,
              trace := trace w @ map (\<lambda>f. EvOpenWrite (os_path_join UPLOAD_DIR (upload_name f))) pre\<rparr>)"
  using assms
proof (induction pre arbitrary: w acc)
  case Nil
  then show ?case by simp
next
  case (Cons f pre)
  let ?p = "os_path_join UPLOAD_DIR (upload_name f)"
  let ?w1 = "emit (EvOpenWrite ?p) (w\<lparr>nodes := AList.update ?p (File (upload_bytes f)) (nodes w)\<rparr>)"
  from Cons.prems have ok: "is_allowed_file (upload_name f)" "map_of (nodes w) ?p \<noteq> Some Dir"
    by simp_all
  then have wr: "open_write ?p (upload_bytes f) w = (Inr (), ?w1)"
    by (auto simp: open_write_def split: option.splits node.splits)
  have rest: "\<forall>g\<in>set pre. is_allowed_file (upload_name g)
             \<and> map_of (nodes ?w1) (os_path_join UPLOAD_DIR (upload_name g)) \<noteq> Some Dir"
    using Cons.prems(1) by (simp add: nodes_emit update_conv')
  show ?case
    using Cons.IH [OF rest Cons.prems(2)] ok wr
    by (simp add: emit_def)
qed


section \<open>Properties of the extractor\<close>

text \<open>
  C3.  When the file at the path is a regular file that the PDF library parses into pages
  whose texts are \<open>texts\<close>, \<open>extract_text_from_pdf\<close> returns the texts in page order,
  joined with one newline as separator, with leading and trailing whitespace stripped from
  the whole: appending a newline after every page and stripping gives the same string as
  joining with the separator and stripping.
\<close>

theorem extract_text_from_pdf_join_strip:
  assumes "map_of (nodes w) p = Some (File bytes)"
      and "pdf_reader L bytes = Inr (map Inr texts)"
  shows "fst (extract_text_from_pdf L p w) = Some (str_strip (str_join [CHR 0x0A] texts))"
  using assms
  by (simp add: extract_text_from_pdf_def pdf_try_def open_read_def pdf_page_loop_texts
        strip_terminated_pages)

theorem extract_text_from_pdf_join_strip_witness:
  "map_of (nodes \<lparr>nodes = [(''uploads'', Dir), (''uploads/cv.pdf'', File ''%PDF'')], trace = []\<rparr>)
      ''uploads/cv.pdf'' = Some (File ''%PDF'')
   \<and> pdf_reader \<lparr>pdf_reader = (\<lambda>b. Inr [Inr ''  Alice'', Inr ''Python '']),
                   docx_document = (\<lambda>b. Inl ''not a docx'')\<rparr> ''%PDF''
       = Inr (map Inr [''  Alice'', ''Python ''])
   \<and> fst (extract_text_from_pdf
            \<lparr>pdf_reader = (\<lambda>b. Inr [Inr ''  Alice'', Inr ''Python '']),
             docx_document = (\<lambda>b. Inl ''not a docx'')\<rparr>
            ''uploads/cv.pdf''
            \<lparr>nodes = [(''uploads'', Dir), (''uploads/cv.pdf'', File ''%PDF'')], trace = []\<rparr>)
       = Some (''Alice'' @ [CHR 0x0A] @ ''Python'')"
proof -
  have val: "str_strip (str_join [CHR 0x0A] [''  Alice'', ''Python '']) = ''Alice'' @ [CHR 0x0A] @ ''Python''"
    by code_simp
  show ?thesis
    using extract_text_from_pdf_join_strip
            [of "\<lparr>nodes = [(''uploads'', Dir), (''uploads/cv.pdf'', File ''%PDF'')], trace = []\<rparr>"
                "''uploads/cv.pdf''" "''%PDF''"
                "\<lparr>pdf_reader = (\<lambda>b. Inr [Inr ''  Alice'', Inr ''Python '']),
                  docx_document = (\<lambda>b. Inl ''not a docx'')\<rparr>"
                "[''  Alice'', ''Python '']", unfolded val]
    by simp
qed

text \<open>
  C6.  For every path whose lowercased extension is neither \<open>.pdf\<close> nor \<open>.docx\<close>,
  \<open>extract_text\<close> returns \<open>None\<close> at once: whatever the libraries and the file system
  are, the file system is left as it was and the only effect is the printed message; no
  file is opened and no parser is called.
\<close>

theorem extract_text_unsupported_format:
  assumes "str_lower (snd (os_path_splitext p)) \<noteq> ''.pdf''"
      and "str_lower (snd (os_path_splitext p)) \<noteq> ''.docx''"
  shows "fst (extract_text L p w) = None
         \<and> nodes (snd (extract_text L p w)) = nodes w
         \<and> trace (snd (extract_text L p w)) =
             trace w @ [EvPrint (''Unsupported file format: '' @ str_lower (snd (os_path_splitext p)))]"
  using assms by (simp add: extract_text_def Let_def nodes_emit trace_emit)

theorem extract_text_unsupported_format_witness:
  "str_lower (snd (os_path_splitext ''uploads/notes.TXT'')) \<noteq> ''.pdf''
   \<and> str_lower (snd (os_path_splitext ''uploads/notes.TXT'')) \<noteq> ''.docx''
   \<and> fst (extract_text \<lparr>pdf_reader = (\<lambda>b. Inr [Inr b]), docx_document = (\<lambda>b. Inr [b])\<rparr>
          ''uploads/notes.TXT'' \<lparr>nodes = [(''uploads/notes.TXT'', File ''hello'')], trace = []\<rparr>) = None
   \<and> trace (snd (extract_text \<lparr>pdf_reader = (\<lambda>b. Inr [Inr b]), docx_document = (\<lambda>b. Inr [b])\<rparr>
          ''uploads/notes.TXT'' \<lparr>nodes = [(''uploads/notes.TXT'', File ''hello'')], trace = []\<rparr>))
       = [EvPrint ''Unsupported file format: .txt'']"
proof -
  have ext: "str_lower (snd (os_path_splitext ''uploads/notes.TXT'')) = ''.txt''"
    by code_simp
  show ?thesis
    using extract_text_unsupported_format
            [of "''uploads/notes.TXT''" "\<lparr>pdf_reader = (\<lambda>b. Inr [Inr b]), docx_document = (\<lambda>b. Inr [b])\<rparr>"
                "\<lparr>nodes = [(''uploads/notes.TXT'', File ''hello'')], trace = []\<rparr>", unfolded ext]
    by (simp add: ext)
qed

section \<open>Properties of the endpoints\<close>

text \<open>
  C7.  A filter request with an empty keyword list is rejected with the invalid-input error
  (status 400), and the world is returned as it was: its trace has no new event, so nothing
  was listed or read.
\<close>

theorem filter_empty_keywords_rejected:
  "filter_resumes L \<lparr>request_keywords = []\<rparr> w = (Inl (HTTPException 400 ''No keywords provided''), w)
   \<and> trace (snd (filter_resumes L \<lparr>request_keywords = []\<rparr> w)) = trace w"
  by (simp add: filter_resumes_def)

text \<open>
  C8.  When no node exists at the path of the file name in the store, \<open>delete_resume\<close>
  signals not-found (status 404) and leaves the store as it was; when a file is stored
  there, it answers with success and the store is the old one without that path.
\<close>

theorem delete_resume_absent_or_present:
  "(map_of (nodes w) (os_path_join UPLOAD_DIR name) = None \<longrightarrow>
      fst (delete_resume name w) = Inl (HTTPException 404 ''Resume not found'')
      \<and> nodes (snd (delete_resume name w)) = nodes w)
   \<and> (\<forall>b. map_of (nodes w) (os_path_join UPLOAD_DIR name) = Some (File b) \<longrightarrow>
      fst (delete_resume name w) = Inr \<lparr>message = ''Resume '' @ name @ '' deleted successfully''\<rparr>
      \<and> map_of (nodes (snd (delete_resume name w))) =
            (map_of (nodes w)) (os_path_join UPLOAD_DIR name := None))"
  by (simp add: delete_resume_absent delete_resume_file nodes_emit delete_conv')

theorem delete_resume_absent_or_present_witness:
  "map_of (nodes \<lparr>nodes = [(''uploads'', Dir), (''uploads/cv.pdf'', File ''A'')], trace = []\<rparr>)
      (os_path_join UPLOAD_DIR ''ghost.pdf'') = None
   \<and> fst (delete_resume ''ghost.pdf'' \<lparr>nodes = [(''uploads'', Dir), (''uploads/cv.pdf'', File ''A'')], trace = []\<rparr>)
       = Inl (HTTPException 404 ''Resume not found'')
   \<and> nodes (snd (delete_resume ''ghost.pdf'' \<lparr>nodes = [(''uploads'', Dir), (''uploads/cv.pdf'', File ''A'')], trace = []\<rparr>))
       = [(''uploads'', Dir), (''uploads/cv.pdf'', File ''A'')]
   \<and> map_of (nodes \<lparr>nodes = [(''uploads'', Dir), (''uploads/cv.pdf'', File ''A'')], trace = []\<rparr>)
      (os_path_join UPLOAD_DIR ''cv.pdf'') = Some (File ''A'')
   \<and> fst (delete_resume ''cv.pdf'' \<lparr>nodes = [(''uploads'', Dir), (''uploads/cv.pdf'', File ''A'')], trace = []\<rparr>)
       = Inr \<lparr>message = ''Resume cv.pdf deleted successfully''\<rparr>
   \<and> map_of (nodes (snd (delete_resume ''cv.pdf'' \<lparr>nodes = [(''uploads'', Dir), (''uploads/cv.pdf'', File ''A'')], trace = []\<rparr>)))
        ''uploads/cv.pdf'' = None"
proof -
  have p1: "os_path_join UPLOAD_DIR ''ghost.pdf'' = ''uploads/ghost.pdf''"
    by code_simp
  have p2: "os_path_join UPLOAD_DIR ''cv.pdf'' = ''uploads/cv.pdf''"
    by code_simp
  show ?thesis
    using delete_resume_absent_or_present
            [of "\<lparr>nodes = [(''uploads'', Dir), (''uploads/cv.pdf'', File ''A'')], trace = []\<rparr>" "''ghost.pdf''"]
          delete_resume_absent_or_present
            [of "\<lparr>nodes = [(''uploads'', Dir), (''uploads/cv.pdf'', File ''A'')], trace = []\<rparr>" "''cv.pdf''"]
    by (simp add: p1 p2)
qed


text \<open>
  C10.  \<open>delete_resume\<close> does not look at the extension: it signals not-found exactly when
  nothing exists at the joined store path; a file name with a disallowed extension is never
  in the list of \<open>get_uploaded_resumes\<close>, and yet, when a file of that name is stored, the
  delete succeeds and removes it.
\<close>

theorem delete_ignores_extension:
  "(fst (delete_resume name w) = Inl (HTTPException 404 ''Resume not found'')
      \<longleftrightarrow> map_of (nodes w) (os_path_join UPLOAD_DIR name) = None)
   \<and> (\<not> is_allowed_file name \<longrightarrow> name \<notin> set (fst (get_uploaded_resumes w)))
   \<and> (\<forall>b. \<not> is_allowed_file name \<and> map_of (nodes w) (os_path_join UPLOAD_DIR name) = Some (File b) \<longrightarrow>
         fst (delete_resume name w) = Inr \<lparr>message = ''Resume '' @ name @ '' deleted successfully''\<rparr>
         \<and> map_of (nodes (snd (delete_resume name w))) (os_path_join UPLOAD_DIR name) = None)"
proof -
  have "fst (delete_resume name w) = Inl (HTTPException 404 ''Resume not found'')
      \<longleftrightarrow> map_of (nodes w) (os_path_join UPLOAD_DIR name) = None"
  proof (cases "map_of (nodes w) (os_path_join UPLOAD_DIR name)")
    case None
    then show ?thesis by (simp add: delete_resume_absent)
  next
    case (Some n)
    then show ?thesis by (cases n) (simp_all add: delete_resume_file delete_resume_dir)
  qed
  then show ?thesis
    by (simp add: disallowed_not_listed delete_resume_file nodes_emit delete_conv')
qed

theorem delete_ignores_extension_witness:
  "\<not> is_allowed_file ''notes.txt''
   \<and> map_of (nodes \<lparr>nodes = [(''uploads'', Dir), (''uploads/notes.txt'', File ''B'')], trace = []\<rparr>)
        (os_path_join UPLOAD_DIR ''notes.txt'') = Some (File ''B'')
   \<and> fst (get_uploaded_resumes \<lparr>nodes = [(''uploads'', Dir), (''uploads/notes.txt'', File ''B'')], trace = []\<rparr>) = []
   \<and> fst (delete_resume ''notes.txt'' \<lparr>nodes = [(''uploads'', Dir), (''uploads/notes.txt'', File ''B'')], trace = []\<rparr>)
        = Inr \<lparr>message = ''Resume notes.txt deleted successfully''\<rparr>
   \<and> map_of (nodes (snd (delete_resume ''notes.txt''
          \<lparr>nodes = [(''uploads'', Dir), (''uploads/notes.txt'', File ''B'')], trace = []\<rparr>)))
        ''uploads/notes.txt'' = None"
proof -
  have na: "\<not> is_allowed_file ''notes.txt''"
    by code_simp
  have p: "os_path_join UPLOAD_DIR ''notes.txt'' = ''uploads/notes.txt''"
    by code_simp
  have ls: "fst (get_uploaded_resumes \<lparr>nodes = [(''uploads'', Dir), (''uploads/notes.txt'', File ''B'')], trace = []\<rparr>) = []"
    by code_simp
  show ?thesis
    using delete_ignores_extension
            [of "''notes.txt''" "\<lparr>nodes = [(''uploads'', Dir), (''uploads/notes.txt'', File ''B'')], trace = []\<rparr>"]
    by (simp add: na p ls)
qed

lemma foldl_update_present:
  "f \<in> set pre \<Longrightarrow>
     \<exists>b. map_of (foldl (\<lambda>ns g. AList.update (P g) (File (B g)) ns) ns0 pre) (P f) = Some (File b)"
proof (induction pre rule: rev_induct)
  case Nil
  then show ?case by simp
next
  case (snoc x xs)
  show ?case
  proof (cases "P f = P x")
    case True
    then show ?thesis by (simp add: update_conv')
  next
    case False
    with snoc.prems have "f \<in> set xs" by auto
    with snoc.IH False show ?thesis by (simp add: update_conv')
  qed
qed

text \<open>
  C1 (as amended).  When a batch holds a file name with a disallowed extension, and the
  files listed before the first such name are saved without an I/O error (no directory
  stands at their paths), \<open>upload_resumes\<close> rejects the request with the invalid-extension
  error (status 400) naming that first offending file.  The offending file and the files
  after it are not written; the files listed before it have been written and stay in the
  store: the only I/O of the request is the write of each of them, in order.
\<close>

theorem upload_rejected_at_first_invalid:
  assumes "\<forall>f\<in>set pre. is_allowed_file (upload_name f)
             \<and> map_of (nodes w) (os_path_join UPLOAD_DIR (upload_name f)) \<noteq> Some Dir"
      and "\<not> is_allowed_file (upload_name bad)"
  shows "fst (upload_resumes (pre @ bad # post) w) =
           Inl (HTTPException 400
                 (''File '' @ upload_name bad @ '' has invalid extension. Only PDF and DOCX allowed.''))
         \<and> nodes (snd (upload_resumes (pre @ bad # post) w)) =
             foldl (\<lambda>ns f. AList.update (os_path_join UPLOAD_DIR (upload_name f))
                                       (File (upload_bytes f)) ns) (nodes w) pre
         \<and> trace (snd (upload_resumes (pre @ bad # post) w)) =
             trace w @ map (\<lambda>f. EvOpenWrite (os_path_join UPLOAD_DIR (upload_name f))) pre
         \<and> (\<forall>f\<in>set pre. \<exists>b. map_of (nodes (snd (upload_resumes (pre @ bad # post) w)))
                                 (os_path_join UPLOAD_DIR (upload_name f)) = Some (File b))"
proof -
  have "upload_resumes (pre @ bad # post) w =
          (Inl (HTTPException 400
                 (''File '' @ upload_name bad @ '' has invalid extension. Only PDF and DOCX allowed.'')),
           w\<lparr>nodes := foldl (\<lambda>ns f. AList.update (os_path_join UPLOAD_DIR (upload_name f))
                                       (File (upload_bytes f)) ns) (nodes w) pre,
             trace := trace w @ map (\<lambda>f. EvOpenWrite (os_path_join UPLOAD_DIR (upload_name f))) pre\<rparr>)"
    by (simp add: upload_resumes_def upload_loop_prefix [OF assms])
  moreover have "\<forall>f\<in>set pre. \<exists>b.
      map_of (foldl (\<lambda>ns f. AList.update (os_path_join UPLOAD_DIR (upload_name f))
                                  (File (upload_bytes f)) ns) (nodes w) pre)
        (os_path_join UPLOAD_DIR (upload_name f)) = Some (File b)"
    using foldl_update_present
            [where P = "\<lambda>f. os_path_join UPLOAD_DIR (upload_name f)" and B = upload_bytes
               and pre = pre and ?ns0.0 = "nodes w"]
    by blast
  ultimately show ?thesis
    by simp
qed

theorem upload_rejected_at_first_invalid_witness:
  "is_allowed_file (upload_name (UploadFile ''cv.pdf'' ''A''))
   \<and> map_of (nodes \<lparr>nodes = [(''uploads'', Dir)], trace = []\<rparr>)
         (os_path_join UPLOAD_DIR (upload_name (UploadFile ''cv.pdf'' ''A''))) \<noteq> Some Dir
   \<and> \<not> is_allowed_file (upload_name (UploadFile ''notes.txt'' ''B''))
   \<and> fst (upload_resumes ([UploadFile ''cv.pdf'' ''A''] @ UploadFile ''notes.txt'' ''B'' # [UploadFile ''x.docx'' ''C''])
             \<lparr>nodes = [(''uploads'', Dir)], trace = []\<rparr>)
       = Inl (HTTPException 400 ''File notes.txt has invalid extension. Only PDF and DOCX allowed.'')
   \<and> nodes (snd (upload_resumes ([UploadFile ''cv.pdf'' ''A''] @ UploadFile ''notes.txt'' ''B'' # [UploadFile ''x.docx'' ''C''])
             \<lparr>nodes = [(''uploads'', Dir)], trace = []\<rparr>))
       = [(''uploads'', Dir), (''uploads/cv.pdf'', File ''A'')]"
proof -
  have ok: "is_allowed_file ''cv.pdf''" and na: "\<not> is_allowed_file ''notes.txt''"
    by code_simp+
  have p: "os_path_join UPLOAD_DIR ''cv.pdf'' = ''uploads/cv.pdf''"
    by code_simp
  show ?thesis
    using upload_rejected_at_first_invalid
            [of "[UploadFile ''cv.pdf'' ''A'']" "\<lparr>nodes = [(''uploads'', Dir)], trace = []\<rparr>"
                "UploadFile ''notes.txt'' ''B''" "[UploadFile ''x.docx'' ''C'']"]
    by (simp add: ok na p)
qed

text \<open>
  The claim as first stated says that no file of a rejected batch is written.  For the batch
  \<open>cv.pdf\<close>, \<open>notes.txt\<close> on a store that holds no file, the request is rejected with the
  invalid-extension error naming \<open>notes.txt\<close>, and \<open>cv.pdf\<close> is in the store afterwards.
\<close>

theorem upload_not_atomic_counterexample:
  "fst (upload_resumes [UploadFile ''cv.pdf'' ''A'', UploadFile ''notes.txt'' ''B'']
          \<lparr>nodes = [(''uploads'', Dir)], trace = []\<rparr>)
     = Inl (HTTPException 400 ''File notes.txt has invalid extension. Only PDF and DOCX allowed.'')
   \<and> map_of (nodes \<lparr>nodes = [(''uploads'', Dir)], trace = []\<rparr>) ''uploads/cv.pdf'' = None
   \<and> map_of (nodes (snd (upload_resumes [UploadFile ''cv.pdf'' ''A'', UploadFile ''notes.txt'' ''B'']
                          \<lparr>nodes = [(''uploads'', Dir)], trace = []\<rparr>))) ''uploads/cv.pdf''
     = Some (File ''A'')"
  by code_simp


section \<open>Facts about the filter\<close>

lemma open_read_nodes: "nodes (snd (open_read p w)) = nodes w"
  by (simp add: open_read_def nodes_emit)

lemma open_read_fst: "nodes w = nodes w' \<Longrightarrow> fst (open_read p w) = fst (open_read p w')"
  by (simp add: open_read_def)

lemma extract_text_nodes: "nodes (snd (extract_text L p w)) = nodes w"
  by (simp add: extract_text_def extract_text_from_pdf_def extract_text_from_docx_def
        pdf_try_def docx_try_def open_read_def nodes_emit Let_def
      split: option.splits node.splits sum.splits)

lemma extract_text_fst:
  "nodes w = nodes w' \<Longrightarrow> fst (extract_text L p w) = fst (extract_text L p w')"
  by (simp add: extract_text_def extract_text_from_pdf_def extract_text_from_docx_def
        pdf_try_def docx_try_def open_read_def Let_def
      split: option.splits node.splits sum.splits)

lemma document_result_cong:
  "nodes w = nodes w' \<Longrightarrow> document_result L K w = document_result L K w'"
  by (rule ext) (simp add: document_result_def extract_text_fst [of w w'])

lemma match_entry_cong:
  "nodes w = nodes w' \<Longrightarrow> match_entry L K w = match_entry L K w'"
  by (rule ext) (simp add: match_entry_def document_result_cong [of w w'])

lemma score_absent_text:
  "text = None \<or> text = Some [] \<Longrightarrow> score (search_keywords text K) = 0"
  by (auto simp: search_keywords_def)

lemma filter_loop_entries:
  "fst (filter_loop L K names acc w) =
     acc @ map (match_entry L K w) (filter (\<lambda>n. 0 < score (document_result L K w n)) names)"
proof (induction names arbitrary: acc w)
  case Nil
  show ?case by simp
next
  case (Cons n names)
  obtain tx w1 where ex: "extract_text L (os_path_join UPLOAD_DIR n) w = (tx, w1)"
    by (cases "extract_text L (os_path_join UPLOAD_DIR n) w")
  then have same: "nodes w1 = nodes w"
    using extract_text_nodes [of L "os_path_join UPLOAD_DIR n" w] by simp
  have dr: "document_result L K w1 = document_result L K w"
    using same by (rule document_result_cong)
  have me: "match_entry L K w1 = match_entry L K w"
    using same by (rule match_entry_cong)
  have res: "document_result L K w n = search_keywords tx K"
    using ex by (simp add: document_result_def)
  show ?case
  proof (cases "tx \<noteq> None \<and> tx \<noteq> Some [] \<and> 0 < score (search_keywords tx K)")
    case True
    then show ?thesis
      using ex res by (simp add: Cons.IH dr me Let_def match_entry_def)
  next
    case False
    then have "\<not> 0 < score (search_keywords tx K)"
      using score_absent_text [of tx K] by auto
    with False show ?thesis
      using ex res by (auto simp: Cons.IH dr me Let_def)
  qed
qed

lemma get_uploaded_resumes_nodes: "nodes (snd (get_uploaded_resumes w)) = nodes w"
  by (simp add: get_uploaded_resumes_def os_path_exists_def os_listdir_def nodes_emit
      split: bool.splits)

lemma mset_sort_by_score_reverse: "mset (sort_by_score_reverse xs) = mset xs"
  by (simp add: sort_by_score_reverse_def)

lemma sorted_sort_by_score_reverse:
  "sorted_wrt (\<lambda>a b. score b \<le> score a) (sort_by_score_reverse xs)"
proof -
  have "sorted (map score (sort_key score (rev xs)))" by simp
  then have "sorted_wrt (\<lambda>a b. score a \<le> score b) (sort_key score (rev xs))"
    by (simp add: sorted_map)
  then show ?thesis
    by (simp add: sort_by_score_reverse_def sorted_wrt_rev)
qed

lemma stable_sort_by_score_reverse:
  "filter (\<lambda>m. score m = v) (sort_by_score_reverse xs) = filter (\<lambda>m. score m = v) xs"
proof -
  have "filter (\<lambda>m. score m = v) (sort_by_score_reverse xs)
          = rev (filter (\<lambda>m. score m = v) (sort_key score (rev xs)))"
    by (simp add: sort_by_score_reverse_def rev_filter)
  also have "\<dots> = rev (filter (\<lambda>m. score m = v) (rev xs))"
    by (simp only: sort_key_stable)
  also have "\<dots> = filter (\<lambda>m. score m = v) xs"
    by (simp add: rev_filter)
  finally show ?thesis .
qed

lemma filter_resumes_matches:
  assumes "request_keywords request \<noteq> []"
  shows "\<exists>r. fst (filter_resumes L request w) = Inr r
          \<and> matched_resumes r =
              sort_by_score_reverse
                (map (match_entry L (request_keywords request) w)
                   (filter (\<lambda>n. 0 < score (document_result L (request_keywords request) w n))
                      (fst (get_uploaded_resumes w))))"
proof -
  obtain resumes w1 where g: "get_uploaded_resumes w = (resumes, w1)"
    by (cases "get_uploaded_resumes w")
  then have same: "nodes w1 = nodes w"
    using get_uploaded_resumes_nodes [of w] by simp
  show ?thesis
  proof (cases "resumes = []")
    case True
    with assms g show ?thesis
      by (simp add: filter_resumes_def sort_by_score_reverse_def)
  next
    case False
    obtain matched w2 where fl: "filter_loop L (request_keywords request) resumes [] w1 = (matched, w2)"
      by (cases "filter_loop L (request_keywords request) resumes [] w1")
    then have "matched = map (match_entry L (request_keywords request) w)
                   (filter (\<lambda>n. 0 < score (document_result L (request_keywords request) w n)) resumes)"
      using filter_loop_entries [of L "request_keywords request" resumes "[]" w1] same
      by (simp add: document_result_cong [OF same] match_entry_cong [OF same])
    with assms g False fl show ?thesis
      by (simp add: filter_resumes_def Let_def)
  qed
qed

lemma score_match_entry: "score (match_entry L K w n) = score (document_result L K w n)"
  by (simp add: match_entry_def)


text \<open>
  C4.  For every store and every non-empty keyword list, \<open>filter_resumes\<close> answers with a
  list that holds exactly the entries of the listed documents whose score is above 0, in
  descending order of score; the entries of equal score stand in the order of the directory
  listing.
\<close>

theorem filter_resumes_sorted_stable:
  assumes "request_keywords request \<noteq> []"
  shows "\<exists>r. fst (filter_resumes L request w) = Inr r
          \<and> mset (matched_resumes r) =
              mset (map (match_entry L (request_keywords request) w)
                     (filter (\<lambda>n. 0 < score (document_result L (request_keywords request) w n))
                        (fst (get_uploaded_resumes w))))
          \<and> sorted_wrt (\<lambda>a b. score b \<le> score a) (matched_resumes r)
          \<and> (\<forall>v. filter (\<lambda>m. score m = v) (matched_resumes r) =
                 map (match_entry L (request_keywords request) w)
                   (filter (\<lambda>n. score (document_result L (request_keywords request) w n) = v \<and> 0 < v)
                      (fst (get_uploaded_resumes w))))"
proof -
  let ?K = "request_keywords request"
  let ?pos = "filter (\<lambda>n. 0 < score (document_result L ?K w n)) (fst (get_uploaded_resumes w))"
  from filter_resumes_matches [OF assms, of L w]
  obtain r where r: "fst (filter_resumes L request w) = Inr r"
    and m: "matched_resumes r = sort_by_score_reverse (map (match_entry L ?K w) ?pos)"
    by blast
  have stable: "filter (\<lambda>m. score m = v) (matched_resumes r) =
                 map (match_entry L ?K w)
                   (filter (\<lambda>n. score (document_result L ?K w n) = v \<and> 0 < v)
                      (fst (get_uploaded_resumes w)))" for v
  proof -
    have "filter (\<lambda>m. score m = v) (matched_resumes r)
            = filter (\<lambda>m. score m = v) (map (match_entry L ?K w) ?pos)"
      by (simp only: m stable_sort_by_score_reverse)
    also have "\<dots> = map (match_entry L ?K w)
                        (filter (\<lambda>n. score (document_result L ?K w n) = v) ?pos)"
      by (simp add: filter_map o_def score_match_entry)
    also have "filter (\<lambda>n. score (document_result L ?K w n) = v) ?pos
                 = filter (\<lambda>n. score (document_result L ?K w n) = v \<and> 0 < v)
                     (fst (get_uploaded_resumes w))"
      by (auto intro: filter_cong)
    finally show ?thesis .
  qed
  show ?thesis
    using r m stable
    by (simp add: mset_sort_by_score_reverse sorted_sort_by_score_reverse)
qed

theorem filter_resumes_sorted_stable_witness:
  "request_keywords \<lparr>request_keywords = [''python'', ''java'']\<rparr> \<noteq> []
   \<and> fst (get_uploaded_resumes
            \<lparr>nodes = [(''uploads'', Dir),
                      (''uploads/alice.pdf'', File ''Python and SQL''),
                      (''uploads/eve.pdf'', File ''Cobol''),
                      (''uploads/notes.txt'', File ''python java''),
                      (''uploads/bob.docx'', File ''PYTHON''),
                      (''uploads/carol.pdf'', File ''Java, Python'')],
             trace = []\<rparr>)
       = [''alice.pdf'', ''eve.pdf'', ''bob.docx'', ''carol.pdf'']
   \<and> map (\<lambda>m. (filename m, score m))
         (matched_resumes (projr (fst (filter_resumes
            \<lparr>pdf_reader = (\<lambda>b. Inr [Inr b]), docx_document = (\<lambda>b. Inr [b])\<rparr>
            \<lparr>request_keywords = [''python'', ''java'']\<rparr>
            \<lparr>nodes = [(''uploads'', Dir),
                      (''uploads/alice.pdf'', File ''Python and SQL''),
                      (''uploads/eve.pdf'', File ''Cobol''),
                      (''uploads/notes.txt'', File ''python java''),
                      (''uploads/bob.docx'', File ''PYTHON''),
                      (''uploads/carol.pdf'', File ''Java, Python'')],
             trace = []\<rparr>))))
       = [(''carol.pdf'', 2), (''alice.pdf'', 1), (''bob.docx'', 1)]
   \<and> sorted_wrt (\<lambda>a b. score b \<le> score a)
         (matched_resumes (projr (fst (filter_resumes
            \<lparr>pdf_reader = (\<lambda>b. Inr [Inr b]), docx_document = (\<lambda>b. Inr [b])\<rparr>
            \<lparr>request_keywords = [''python'', ''java'']\<rparr>
            \<lparr>nodes = [(''uploads'', Dir),
                      (''uploads/alice.pdf'', File ''Python and SQL''),
                      (''uploads/eve.pdf'', File ''Cobol''),
                      (''uploads/notes.txt'', File ''python java''),
                      (''uploads/bob.docx'', File ''PYTHON''),
                      (''uploads/carol.pdf'', File ''Java, Python'')],
             trace = []\<rparr>))))"
proof -
  let ?L = "\<lparr>pdf_reader = (\<lambda>b. Inr [Inr b]), docx_document = (\<lambda>b. Inr [b])\<rparr>"
  let ?R = "\<lparr>request_keywords = [''python'', ''java'']\<rparr>"
  let ?W = "\<lparr>nodes = [(''uploads'', Dir),
                      (''uploads/alice.pdf'', File ''Python and SQL''),
                      (''uploads/eve.pdf'', File ''Cobol''),
                      (''uploads/notes.txt'', File ''python java''),
                      (''uploads/bob.docx'', File ''PYTHON''),
                      (''uploads/carol.pdf'', File ''Java, Python'')],
             trace = []\<rparr>"
  have ls: "fst (get_uploaded_resumes ?W) = [''alice.pdf'', ''eve.pdf'', ''bob.docx'', ''carol.pdf'']"
    by code_simp
  have val: "map (\<lambda>m. (filename m, score m)) (matched_resumes (projr (fst (filter_resumes ?L ?R ?W))))
               = [(''carol.pdf'', 2), (''alice.pdf'', 1), (''bob.docx'', 1)]"
    by code_simp
  have ne: "request_keywords ?R \<noteq> []" by simp
  from filter_resumes_sorted_stable [OF ne, of ?L ?W]
  have "sorted_wrt (\<lambda>a b. score b \<le> score a) (matched_resumes (projr (fst (filter_resumes ?L ?R ?W))))"
    by auto
  with ls val ne show ?thesis by blast
qed

end
